theory Spec2Isabelle
  imports Complex_Main "HOL-Library.Word"
begin

section \<open>qbVector: a shallow embedding of \<^verbatim>\<open>qbVector.h\<close>\<close>

text \<open>
  The class template \<^verbatim>\<open>qbVector<T>\<close> holds a \<^verbatim>\<open>std::vector<T> m_vectorData\<close> and an
  \<^verbatim>\<open>int m_nDims\<close>. The element type \<open>T\<close> is the type variable \<open>'a\<close>; every function asks
  only for the operators of \<open>T\<close> that its C++ body uses (\<open>plus\<close>, \<open>minus\<close>, \<open>times\<close>, ...),
  with no law assumed about them unless a theorem says so in its sort constraint.
  \<^verbatim>\<open>static_cast<T>(0.0)\<close> is \<open>0\<close> and \<^verbatim>\<open>static_cast<T>(1.0)\<close> is \<open>1\<close>.

  Integers are those of an LP64 platform: \<^verbatim>\<open>int\<close> has 32 bits, \<^verbatim>\<open>size_t\<close> has 64 bits.
  A C++ \<^verbatim>\<open>int\<close> is modelled by an \<open>int\<close> between \<open>INT_MIN\<close> and \<open>INT_MAX\<close>, and
  the two conversions the code makes implicitly are written out: \<open>int_of_size\<close>
  (\<^verbatim>\<open>size_t\<close> to \<^verbatim>\<open>int\<close>, keeping the low 32 bits) and \<open>size_of_int\<close> (\<^verbatim>\<open>int\<close> to
  \<^verbatim>\<open>size_t\<close>, modulo \<open>2 ^ 64\<close>). An index of type \<^verbatim>\<open>size_t\<close> is a \<open>64 word\<close>.
  Running out of memory (\<^verbatim>\<open>std::bad_alloc\<close>) is not modelled.
\<close>

subsection \<open>Failures\<close>

text \<open>
  Every \<^verbatim>\<open>throw\<close> of the source is a value. The three kinds of \<^verbatim>\<open>std::invalid_argument\<close>
  are told apart by their message:
  \<^item> \<open>DimensionMismatch\<close>: "Vector dimensions do not match." and "Vector dimensions must
    match for the dot-product / cross-product to be computed.";
  \<^item> \<open>InvalidDimension\<close>: "The cross-product can only be computed for three-dimensional
    vectors.";
  \<^item> \<open>IndexOutOfRange\<close>: "Vector index out of range".

  \<open>StdOutOfRange\<close> is the \<^verbatim>\<open>std::out_of_range\<close> of \<^verbatim>\<open>std::vector::at\<close>, \<open>StdLengthError\<close> the
  \<^verbatim>\<open>std::length_error\<close> of a \<^verbatim>\<open>std::vector\<close> constructor asked for more than
  \<^verbatim>\<open>max_size()\<close> elements, and \<open>UndefinedBehaviour\<close> stands for an unchecked
  \<^verbatim>\<open>std::vector::operator[]\<close> outside the storage, where C++ defines no outcome.
\<close>

datatype error =
    DimensionMismatch
  | InvalidDimension
  | IndexOutOfRange
  | StdOutOfRange
  | StdLengthError
  | UndefinedBehaviour

subsection \<open>Machine integers\<close>

type_synonym size_t = "64 word"

definition INT_MAX :: int where
  "INT_MAX = 2147483647"

definition INT_MIN :: int where
  "INT_MIN = - 2147483648"

definition int_of_size :: "nat \<Rightarrow> int" where
  "int_of_size n = signed_take_bit 31 (int n)"

definition size_of_int :: "int \<Rightarrow> nat" where
  "size_of_int i = nat (i mod 2 ^ 64)"

text \<open>
  \<^verbatim>\<open>std::vector<T>::max_size()\<close> is at most \<^verbatim>\<open>PTRDIFF_MAX\<close>; a request beyond it throws.
  Every non-negative \<^verbatim>\<open>int\<close> is below it, every negative \<^verbatim>\<open>int\<close> converted to
  \<^verbatim>\<open>size_t\<close> is above it.
\<close>

definition max_size :: nat where
  "max_size = 2 ^ 63 - 1"

subsection \<open>Access to the storage\<close>

text \<open>\<^verbatim>\<open>v.at(i)\<close> with an \<^verbatim>\<open>int i\<close>: the checked read and the checked write.\<close>

definition vector_at :: "'a list \<Rightarrow> int \<Rightarrow> error + 'a" where
  "vector_at xs i =
     (let n = size_of_int i
      in if n < length xs then Inr (xs ! n) else Inl StdOutOfRange)"

definition vector_at_assign :: "'a list \<Rightarrow> int \<Rightarrow> 'a \<Rightarrow> error + 'a list" where
  "vector_at_assign xs i x =
     (let n = size_of_int i
      in if n < length xs then Inr (xs[n := x]) else Inl StdOutOfRange)"

text \<open>\<^verbatim>\<open>v[n]\<close>: the unchecked read and the unchecked write, \<open>n\<close> already a \<^verbatim>\<open>size_t\<close>.\<close>

definition vector_index :: "'a list \<Rightarrow> nat \<Rightarrow> error + 'a" where
  "vector_index xs n = (if n < length xs then Inr (xs ! n) else Inl UndefinedBehaviour)"

definition vector_index_assign :: "'a list \<Rightarrow> nat \<Rightarrow> 'a \<Rightarrow> error + 'a list" where
  "vector_index_assign xs n x =
     (if n < length xs then Inr (xs[n := x]) else Inl UndefinedBehaviour)"

subsection \<open>The loop \<^verbatim>\<open>for (int i = ...; i < n; ++i) body\<close>\<close>

text \<open>
  The state \<open>s\<close> is what the body updates (an accumulator, the vector under construction
  or the storage itself); a body that throws ends the loop with its error. The counter
  stays below \<open>n\<close>, so \<^verbatim>\<open>++i\<close> never leaves the range of \<^verbatim>\<open>int\<close>.
\<close>

function for_loop :: "int \<Rightarrow> int \<Rightarrow> (int \<Rightarrow> 's \<Rightarrow> error + 's) \<Rightarrow> 's \<Rightarrow> error + 's" where
  "for_loop i n body s =
     (if i < n
      then (case body i s of Inl e \<Rightarrow> Inl e | Inr s' \<Rightarrow> for_loop (i + 1) n body s')
      else Inr s)"
  by pat_completeness auto
termination
  by (relation "measure (\<lambda>(i, n, body, s). nat (n - i))") auto

declare for_loop.simps [simp del]

subsection \<open>The class\<close>

record 'a qbVector =
  m_vectorData :: "'a list"
  m_nDims :: int

text \<open>The default constructor.\<close>

definition qbVector_default :: "'a qbVector" where
  "qbVector_default = \<lparr>m_vectorData = [], m_nDims = 0\<rparr>"

text \<open>
  \<^verbatim>\<open>qbVector(int numDims)\<close>: \<^verbatim>\<open>std::vector<T>(numDims, static_cast<T>(0.0))\<close> converts
  \<open>numDims\<close> to \<^verbatim>\<open>size_t\<close> and throws when the count exceeds \<^verbatim>\<open>max_size()\<close>.
\<close>

definition qbVector_dims :: "int \<Rightarrow> error + ('a::zero) qbVector" where
  "qbVector_dims numDims =
     (let n = size_of_int numDims
      in if max_size < n then Inl StdLengthError
         else Inr \<lparr>m_vectorData = replicate n 0, m_nDims = numDims\<rparr>)"

text \<open>\<^verbatim>\<open>qbVector(std::vector<T> inputData)\<close>: \<^verbatim>\<open>m_nDims = inputData.size()\<close> narrows to \<^verbatim>\<open>int\<close>.\<close>

definition qbVector_data :: "'a list \<Rightarrow> 'a qbVector" where
  "qbVector_data inputData =
     \<lparr>m_vectorData = inputData, m_nDims = int_of_size (length inputData)\<rparr>"

definition GetNumDims :: "'a qbVector \<Rightarrow> int" where
  "GetNumDims v = m_nDims v"

definition data :: "'a qbVector \<Rightarrow> 'a list" where
  "data v = m_vectorData v"

text \<open>
  \<^verbatim>\<open>GetElement\<close> and \<^verbatim>\<open>SetElement\<close> index the storage with \<^verbatim>\<open>m_vectorData[index]\<close>: the
  \<^verbatim>\<open>int\<close> becomes a \<^verbatim>\<open>size_t\<close> and nothing is checked. \<^verbatim>\<open>SetElement\<close> returns the
  vector after the assignment.
\<close>

definition GetElement :: "'a qbVector \<Rightarrow> int \<Rightarrow> error + 'a" where
  "GetElement v index = vector_index (m_vectorData v) (size_of_int index)"

definition SetElement :: "'a qbVector \<Rightarrow> int \<Rightarrow> 'a \<Rightarrow> error + 'a qbVector" where
  "SetElement v index val =
     (case vector_index_assign (m_vectorData v) (size_of_int index) val of
        Inl e \<Rightarrow> Inl e
      | Inr d \<Rightarrow> Inr (v\<lparr>m_vectorData := d\<rparr>))"

subsection \<open>Norm and normalisation\<close>

text \<open>
  \<^verbatim>\<open>sqrt\<close> comes from \<^verbatim>\<open><math.h>\<close>; its composition with the conversion back to \<open>T\<close> is
  the parameter \<open>sqrtT\<close>. Division is the \<open>/\<close> of \<open>T\<close>.
\<close>

definition norm_qb :: "('a \<Rightarrow> 'a) \<Rightarrow> ('a::{zero,plus,times}) qbVector \<Rightarrow> error + 'a" where
  "norm_qb sqrtT v =
     (case for_loop 0 (m_nDims v)
             (\<lambda>i cumulativeSum.
                case vector_at (m_vectorData v) i of
                  Inl e \<Rightarrow> Inl e
                | Inr x \<Rightarrow> Inr (cumulativeSum + x * x))
             0 of
        Inl e \<Rightarrow> Inl e
      | Inr cumulativeSum \<Rightarrow> Inr (sqrtT cumulativeSum))"

text \<open>\<^verbatim>\<open>operator* (const T& rhs)\<close>, the scalar on the right.\<close>

definition operator_times_scalar :: "('a::times) qbVector \<Rightarrow> 'a \<Rightarrow> error + 'a qbVector" where
  "operator_times_scalar v rhs =
     (case for_loop 0 (m_nDims v)
             (\<lambda>i resultData.
                case vector_at (m_vectorData v) i of
                  Inl e \<Rightarrow> Inl e
                | Inr x \<Rightarrow> Inr (resultData @ [x * rhs]))
             [] of
        Inl e \<Rightarrow> Inl e
      | Inr resultData \<Rightarrow> Inr (qbVector_data resultData))"

definition Normalized ::
  "('a \<Rightarrow> 'a) \<Rightarrow> ('a::{zero,one,plus,times,inverse}) qbVector \<Rightarrow> error + 'a qbVector" where
  "Normalized sqrtT v =
     (case norm_qb sqrtT v of
        Inl e \<Rightarrow> Inl e
      | Inr vecNorm \<Rightarrow>
          operator_times_scalar (qbVector_data (m_vectorData v)) (1 / vecNorm))"

text \<open>\<^verbatim>\<open>Normalize\<close> returns the vector as the loop leaves it.\<close>

definition Normalize ::
  "('a \<Rightarrow> 'a) \<Rightarrow> ('a::{zero,one,plus,times,inverse}) qbVector \<Rightarrow> error + 'a qbVector" where
  "Normalize sqrtT v =
     (case norm_qb sqrtT v of
        Inl e \<Rightarrow> Inl e
      | Inr vecNorm \<Rightarrow>
          (case for_loop 0 (m_nDims v)
                  (\<lambda>i d.
                     case vector_at d i of
                       Inl e \<Rightarrow> Inl e
                     | Inr x \<Rightarrow> vector_at_assign d i (x * (1 / vecNorm)))
                  (m_vectorData v) of
             Inl e \<Rightarrow> Inl e
           | Inr d \<Rightarrow> Inr (v\<lparr>m_vectorData := d\<rparr>)))"

subsection \<open>Overloaded operators\<close>

definition operator_plus :: "('a::plus) qbVector \<Rightarrow> 'a qbVector \<Rightarrow> error + 'a qbVector" where
  "operator_plus v rhs =
     (if m_nDims v \<noteq> m_nDims rhs then Inl DimensionMismatch
      else
        (case for_loop 0 (m_nDims v)
                (\<lambda>i resultData.
                   case vector_at (m_vectorData v) i of
                     Inl e \<Rightarrow> Inl e
                   | Inr x \<Rightarrow>
                       (case vector_at (m_vectorData rhs) i of
                          Inl e \<Rightarrow> Inl e
                        | Inr y \<Rightarrow> Inr (resultData @ [x + y])))
                [] of
           Inl e \<Rightarrow> Inl e
         | Inr resultData \<Rightarrow> Inr (qbVector_data resultData)))"

definition operator_minus :: "('a::minus) qbVector \<Rightarrow> 'a qbVector \<Rightarrow> error + 'a qbVector" where
  "operator_minus v rhs =
     (if m_nDims v \<noteq> m_nDims rhs then Inl DimensionMismatch
      else
        (case for_loop 0 (m_nDims v)
                (\<lambda>i resultData.
                   case vector_at (m_vectorData v) i of
                     Inl e \<Rightarrow> Inl e
                   | Inr x \<Rightarrow>
                       (case vector_at (m_vectorData rhs) i of
                          Inl e \<Rightarrow> Inl e
                        | Inr y \<Rightarrow> Inr (resultData @ [x - y])))
                [] of
           Inl e \<Rightarrow> Inl e
         | Inr resultData \<Rightarrow> Inr (qbVector_data resultData)))"

text \<open>
  The two \<^verbatim>\<open>operator[] (const size_t idx)\<close>. In \<^verbatim>\<open>idx >= m_nDims\<close> the \<^verbatim>\<open>int\<close> is
  converted to \<^verbatim>\<open>size_t\<close>. The mutable operator returns a reference: the position in the
  storage that the reference designates.
\<close>

definition operator_index :: "'a qbVector \<Rightarrow> size_t \<Rightarrow> error + nat" where
  "operator_index v idx =
     (if idx < 0 \<or> idx \<ge> word_of_int (m_nDims v) then Inl IndexOutOfRange
      else if unat idx < length (m_vectorData v) then Inr (unat idx)
      else Inl UndefinedBehaviour)"

definition operator_index_const :: "'a qbVector \<Rightarrow> size_t \<Rightarrow> error + 'a" where
  "operator_index_const v idx =
     (if idx < 0 \<or> idx \<ge> word_of_int (m_nDims v) then Inl IndexOutOfRange
      else vector_index (m_vectorData v) (unat idx))"

text \<open>
  \<^verbatim>\<open>operator* (const qbVector<T>& rhs)\<close>, the element-wise product:
  \<^verbatim>\<open>std::vector<T> resultData(m_nDims)\<close> holds \<open>m_nDims\<close> value-initialised elements and is
  filled through the unchecked \<^verbatim>\<open>resultData[i]\<close>.
\<close>

definition operator_times_vector ::
  "('a::{zero,times}) qbVector \<Rightarrow> 'a qbVector \<Rightarrow> error + 'a qbVector" where
  "operator_times_vector v rhs =
     (if m_nDims v \<noteq> m_nDims rhs then Inl DimensionMismatch
      else if max_size < size_of_int (m_nDims v) then Inl StdLengthError
      else
        (case for_loop 0 (m_nDims v)
                (\<lambda>i resultData.
                   case vector_at (m_vectorData v) i of
                     Inl e \<Rightarrow> Inl e
                   | Inr x \<Rightarrow>
                       (case vector_at (m_vectorData rhs) i of
                          Inl e \<Rightarrow> Inl e
                        | Inr y \<Rightarrow> vector_index_assign resultData (size_of_int i) (x * y)))
                (replicate (size_of_int (m_nDims v)) 0) of
           Inl e \<Rightarrow> Inl e
         | Inr resultData \<Rightarrow> Inr (qbVector_data resultData)))"

subsection \<open>Friend and static functions\<close>

text \<open>\<^verbatim>\<open>operator* (const T& lhs, const qbVector<T>& rhs)\<close>, the scalar on the left.\<close>

definition friend_operator_times :: "'a \<Rightarrow> ('a::times) qbVector \<Rightarrow> error + 'a qbVector" where
  "friend_operator_times lhs rhs =
     (case for_loop 0 (m_nDims rhs)
             (\<lambda>i resultData.
                case vector_at (m_vectorData rhs) i of
                  Inl e \<Rightarrow> Inl e
                | Inr x \<Rightarrow> Inr (resultData @ [lhs * x]))
             [] of
        Inl e \<Rightarrow> Inl e
      | Inr resultData \<Rightarrow> Inr (qbVector_data resultData))"

definition dot :: "('a::{zero,plus,times}) qbVector \<Rightarrow> 'a qbVector \<Rightarrow> error + 'a" where
  "dot a b =
     (if m_nDims a \<noteq> m_nDims b then Inl DimensionMismatch
      else
        for_loop 0 (m_nDims a)
          (\<lambda>i cumulativeSum.
             case vector_at (m_vectorData a) i of
               Inl e \<Rightarrow> Inl e
             | Inr x \<Rightarrow>
                 (case vector_at (m_vectorData b) i of
                    Inl e \<Rightarrow> Inl e
                  | Inr y \<Rightarrow> Inr (cumulativeSum + x * y)))
          0)"

text \<open>
  \<^verbatim>\<open>cross\<close> reads its operands with \<^verbatim>\<open>at\<close>; \<open>cross_component\<close> is one
  \<^verbatim>\<open>(a.at(i) * b.at(j)) - (a.at(k) * b.at(l))\<close>. C++ leaves the order of the four reads
  open; each of them can fail with \<open>StdOutOfRange\<close> only, so the order does not show.
\<close>

definition cross_component ::
  "('a::{times,minus}) qbVector \<Rightarrow> 'a qbVector \<Rightarrow> int \<Rightarrow> int \<Rightarrow> int \<Rightarrow> int \<Rightarrow> error + 'a" where
  "cross_component a b i j k l =
     (case vector_at (m_vectorData a) i of
        Inl e \<Rightarrow> Inl e
      | Inr ai \<Rightarrow>
     (case vector_at (m_vectorData b) j of
        Inl e \<Rightarrow> Inl e
      | Inr bj \<Rightarrow>
     (case vector_at (m_vectorData a) k of
        Inl e \<Rightarrow> Inl e
      | Inr ak \<Rightarrow>
     (case vector_at (m_vectorData b) l of
        Inl e \<Rightarrow> Inl e
      | Inr bl \<Rightarrow> Inr (ai * bj - ak * bl)))))"

definition cross ::
  "('a::{times,minus,uminus}) qbVector \<Rightarrow> 'a qbVector \<Rightarrow> error + 'a qbVector" where
  "cross a b =
     (if m_nDims a \<noteq> m_nDims b then Inl DimensionMismatch
      else if m_nDims a \<noteq> 3 then Inl InvalidDimension
      else
        (case cross_component a b 1 2 2 1 of
           Inl e \<Rightarrow> Inl e
         | Inr c0 \<Rightarrow>
        (case cross_component a b 0 2 2 0 of
           Inl e \<Rightarrow> Inl e
         | Inr c1 \<Rightarrow>
        (case cross_component a b 0 1 1 0 of
           Inl e \<Rightarrow> Inl e
         | Inr c2 \<Rightarrow> Inr (qbVector_data ([] @ [c0] @ [- c1] @ [c2]))))))"

subsection \<open>The class invariant\<close>

text \<open>
  The storage holds exactly \<open>m_nDims\<close> elements, and \<open>m_nDims\<close> is a value of \<^verbatim>\<open>int\<close>.
\<close>

definition invar :: "'a qbVector \<Rightarrow> bool" where
  "invar v \<longleftrightarrow> int (length (m_vectorData v)) = m_nDims v \<and> m_nDims v \<le> INT_MAX"

section \<open>Properties\<close>

subsection \<open>Conversions, storage access and the loop\<close>


lemma size_of_int_nat: "0 \<le> i \<Longrightarrow> i \<le> INT_MAX \<Longrightarrow> size_of_int i = nat i"
  by (simp add: size_of_int_def INT_MAX_def)

lemma int_of_size_nat: "int n \<le> INT_MAX \<Longrightarrow> int_of_size n = int n"
  unfolding int_of_size_def INT_MAX_def
  by (rule signed_take_bit_int_eq_self) simp_all

lemma vector_at_in_range:
  "0 \<le> i \<Longrightarrow> i < int (length xs) \<Longrightarrow> i \<le> INT_MAX \<Longrightarrow> vector_at xs i = Inr (xs ! nat i)"
  by (simp add: vector_at_def size_of_int_nat Let_def nat_less_iff)

lemma for_loop_done: "n \<le> i \<Longrightarrow> for_loop i n body s = Inr s"
  by (simp add: for_loop.simps)

lemma for_loop_step:
  "i < n \<Longrightarrow> body i s = Inr s' \<Longrightarrow> for_loop i n body s = for_loop (i + 1) n body s'"
  by (subst for_loop.simps) simp

lemma for_loop_push_back:
  assumes "\<And>k acc. i \<le> k \<Longrightarrow> k < n \<Longrightarrow> body k acc = Inr (acc @ [h k])"
  shows "for_loop i n body acc = Inr (acc @ map (\<lambda>j. h (i + int j)) [0..<nat (n - i)])"
  using assms
proof (induction "nat (n - i)" arbitrary: i acc)
  case 0
  then show ?case by (simp add: for_loop_done)
next
  case (Suc m)
  then have lt: "i < n" and m: "m = nat (n - (i + 1))" by linarith+
  have step: "for_loop i n body acc = for_loop (i + 1) n body (acc @ [h i])"
    using lt Suc.prems by (simp add: for_loop_step)
  have "for_loop (i + 1) n body (acc @ [h i]) =
          Inr ((acc @ [h i]) @ map (\<lambda>j. h (i + 1 + int j)) [0..<nat (n - (i + 1))])"
    using m Suc.prems by (intro Suc.hyps) simp_all
  moreover have "nat (n - i) = Suc (nat (n - (i + 1)))"
    using lt by linarith
  ultimately show ?case
    using step by (simp add: map_upt_Suc add.commute add.left_commute del: upt_Suc)
qed

subsection \<open>The operators on vectors that satisfy the invariant\<close>

lemma invar_qbVector_data: "int (length xs) \<le> INT_MAX \<Longrightarrow> invar (qbVector_data xs)"
  by (simp add: invar_def qbVector_data_def int_of_size_nat)

lemma invar_lengthD: "invar v \<Longrightarrow> length (m_vectorData v) = nat (m_nDims v)"
  by (auto simp: invar_def)

lemma invar_nonneg: "invar v \<Longrightarrow> 0 \<le> m_nDims v"
  by (auto simp: invar_def)

lemma invar_at:
  "invar v \<Longrightarrow> 0 \<le> k \<Longrightarrow> k < m_nDims v \<Longrightarrow> vector_at (m_vectorData v) k = Inr (m_vectorData v ! nat k)"
  by (rule vector_at_in_range) (auto simp: invar_def)

lemma map_index_conv: "map (\<lambda>j. f (xs ! j)) [0..<length xs] = map f xs"
  by (rule nth_equalityI) simp_all

lemma map_index_zip:
  "length xs = length ys \<Longrightarrow> map (\<lambda>j. f (xs ! j) (ys ! j)) [0..<length xs] = map2 f xs ys"
  by (rule nth_equalityI) simp_all

lemma operator_times_scalar_invar:
  assumes "invar v"
  shows "operator_times_scalar v rhs = Inr (qbVector_data (map (\<lambda>x. x * rhs) (m_vectorData v)))"
proof -
  let ?xs = "m_vectorData v"
  have "for_loop 0 (m_nDims v)
          (\<lambda>i resultData. case vector_at ?xs i of Inl e \<Rightarrow> Inl e
                            | Inr x \<Rightarrow> Inr (resultData @ [x * rhs])) [] =
        Inr ([] @ map (\<lambda>j. ?xs ! nat (0 + int j) * rhs) [0..<nat (m_nDims v - 0)])"
    by (rule for_loop_push_back) (simp add: invar_at [OF assms])
  then show ?thesis
    using invar_lengthD [OF assms, symmetric]
    by (simp add: operator_times_scalar_def map_index_conv [of "\<lambda>x. x * rhs"])
qed

lemma friend_operator_times_invar:
  assumes "invar v"
  shows "friend_operator_times lhs v = Inr (qbVector_data (map (\<lambda>x. lhs * x) (m_vectorData v)))"
proof -
  let ?xs = "m_vectorData v"
  have "for_loop 0 (m_nDims v)
          (\<lambda>i resultData. case vector_at ?xs i of Inl e \<Rightarrow> Inl e
                            | Inr x \<Rightarrow> Inr (resultData @ [lhs * x])) [] =
        Inr ([] @ map (\<lambda>j. lhs * ?xs ! nat (0 + int j)) [0..<nat (m_nDims v - 0)])"
    by (rule for_loop_push_back) (simp add: invar_at [OF assms])
  then show ?thesis
    using invar_lengthD [OF assms, symmetric]
    by (simp add: friend_operator_times_def map_index_conv [of "\<lambda>x. lhs * x"])
qed

lemma operator_plus_invar:
  assumes a: "invar v" and b: "invar rhs" and eq: "m_nDims v = m_nDims rhs"
  shows "operator_plus v rhs = Inr (qbVector_data (map2 (+) (m_vectorData v) (m_vectorData rhs)))"
proof -
  let ?xs = "m_vectorData v" and ?ys = "m_vectorData rhs"
  have len: "length ?xs = length ?ys"
    using a b eq by (simp add: invar_lengthD)
  have "for_loop 0 (m_nDims v)
          (\<lambda>i resultData. case vector_at ?xs i of Inl e \<Rightarrow> Inl e
             | Inr x \<Rightarrow> (case vector_at ?ys i of Inl e \<Rightarrow> Inl e
                 | Inr y \<Rightarrow> Inr (resultData @ [x + y]))) [] =
        Inr ([] @ map (\<lambda>j. ?xs ! nat (0 + int j) + ?ys ! nat (0 + int j)) [0..<nat (m_nDims v - 0)])"
    by (rule for_loop_push_back) (simp add: invar_at [OF a] invar_at [OF b] eq)
  then show ?thesis
    using invar_lengthD [OF a, symmetric] eq map_index_zip [OF len, of "(+)"]
    by (simp add: operator_plus_def)
qed

lemma operator_minus_invar:
  assumes a: "invar v" and b: "invar rhs" and eq: "m_nDims v = m_nDims rhs"
  shows "operator_minus v rhs = Inr (qbVector_data (map2 (-) (m_vectorData v) (m_vectorData rhs)))"
proof -
  let ?xs = "m_vectorData v" and ?ys = "m_vectorData rhs"
  have len: "length ?xs = length ?ys"
    using a b eq by (simp add: invar_lengthD)
  have "for_loop 0 (m_nDims v)
          (\<lambda>i resultData. case vector_at ?xs i of Inl e \<Rightarrow> Inl e
             | Inr x \<Rightarrow> (case vector_at ?ys i of Inl e \<Rightarrow> Inl e
                 | Inr y \<Rightarrow> Inr (resultData @ [x - y]))) [] =
        Inr ([] @ map (\<lambda>j. ?xs ! nat (0 + int j) - ?ys ! nat (0 + int j)) [0..<nat (m_nDims v - 0)])"
    by (rule for_loop_push_back) (simp add: invar_at [OF a] invar_at [OF b] eq)
  then show ?thesis
    using invar_lengthD [OF a, symmetric] eq map_index_zip [OF len, of "(-)"]
    by (simp add: operator_minus_def)
qed

lemma qbVector_data_invar_fields:
  "int (length xs) \<le> INT_MAX \<Longrightarrow> m_nDims (qbVector_data xs) = int (length xs)"
  "m_vectorData (qbVector_data xs) = xs"
  by (simp_all add: qbVector_data_def int_of_size_nat)


subsection \<open>Element-wise addition and subtraction\<close>

text \<open>
  C1. For vectors \<open>a\<close> and \<open>b\<close> (the invariant holding of both): when the dimensions are
  equal, \<^verbatim>\<open>operator+\<close> and \<^verbatim>\<open>operator-\<close> return a vector of the same dimension whose
  element \<open>i\<close> is \<open>a[i] + b[i]\<close>, respectively \<open>a[i] - b[i]\<close>, for every
  \<open>0 \<le> i < dimension\<close>; when they differ, both fail with \<open>DimensionMismatch\<close>.
\<close>

theorem add_subtract_elementwise:
  fixes a b :: "('a::{plus,minus}) qbVector"
  assumes "invar a" and "invar b"
  shows "(m_nDims a = m_nDims b \<longrightarrow>
           (\<exists>r s. operator_plus a b = Inr r \<and> operator_minus a b = Inr s \<and>
              m_nDims r = m_nDims a \<and> length (m_vectorData r) = length (m_vectorData a) \<and>
              m_nDims s = m_nDims a \<and> length (m_vectorData s) = length (m_vectorData a) \<and>
              (\<forall>i. 0 \<le> i \<and> i < m_nDims a \<longrightarrow>
                 m_vectorData r ! nat i = m_vectorData a ! nat i + m_vectorData b ! nat i \<and>
                 m_vectorData s ! nat i = m_vectorData a ! nat i - m_vectorData b ! nat i))) \<and>
         (m_nDims a \<noteq> m_nDims b \<longrightarrow>
            operator_plus a b = Inl DimensionMismatch \<and>
            operator_minus a b = Inl DimensionMismatch)"
proof (intro conjI impI)
  assume eq: "m_nDims a = m_nDims b"
  let ?xs = "m_vectorData a" and ?ys = "m_vectorData b"
  have len: "length ?ys = length ?xs" and bound: "int (length ?xs) \<le> INT_MAX"
    and dims: "int (length ?xs) = m_nDims a"
    using assms eq by (simp_all add: invar_def)
  let ?r = "qbVector_data (map2 (+) ?xs ?ys)" and ?s = "qbVector_data (map2 (-) ?xs ?ys)"
  have "operator_plus a b = Inr ?r"
    using assms eq by (rule operator_plus_invar)
  moreover have "operator_minus a b = Inr ?s"
    using assms eq by (rule operator_minus_invar)
  moreover have "m_nDims ?r = m_nDims a" "m_nDims ?s = m_nDims a"
    using len bound dims by (simp_all add: qbVector_data_invar_fields)
  moreover have "length (m_vectorData ?r) = length ?xs" "length (m_vectorData ?s) = length ?xs"
    using len by (simp_all add: qbVector_data_invar_fields)
  moreover have "\<forall>i. 0 \<le> i \<and> i < m_nDims a \<longrightarrow>
        m_vectorData ?r ! nat i = ?xs ! nat i + ?ys ! nat i \<and>
        m_vectorData ?s ! nat i = ?xs ! nat i - ?ys ! nat i"
    using len dims by (auto simp: qbVector_data_invar_fields nat_less_iff)
  ultimately show "\<exists>r s. operator_plus a b = Inr r \<and> operator_minus a b = Inr s \<and>
              m_nDims r = m_nDims a \<and> length (m_vectorData r) = length (m_vectorData a) \<and>
              m_nDims s = m_nDims a \<and> length (m_vectorData s) = length (m_vectorData a) \<and>
              (\<forall>i. 0 \<le> i \<and> i < m_nDims a \<longrightarrow>
                 m_vectorData r ! nat i = m_vectorData a ! nat i + m_vectorData b ! nat i \<and>
                 m_vectorData s ! nat i = m_vectorData a ! nat i - m_vectorData b ! nat i)"
    by blast
next
  assume "m_nDims a \<noteq> m_nDims b"
  then show "operator_plus a b = Inl DimensionMismatch"
    by (simp add: operator_plus_def)
next
  assume "m_nDims a \<noteq> m_nDims b"
  then show "operator_minus a b = Inl DimensionMismatch"
    by (simp add: operator_minus_def)
qed

theorem add_subtract_elementwise_witness:
  "invar (qbVector_data [1, 2 :: int]) \<and> invar (qbVector_data [10, 20 :: int]) \<and>
   invar (qbVector_data [1, 2, 3 :: int]) \<and>
   m_nDims (qbVector_data [1, 2 :: int]) = m_nDims (qbVector_data [10, 20 :: int]) \<and>
   operator_plus (qbVector_data [1, 2 :: int]) (qbVector_data [10, 20]) = Inr (qbVector_data [11, 22]) \<and>
   operator_minus (qbVector_data [1, 2 :: int]) (qbVector_data [10, 20]) = Inr (qbVector_data [- 9, - 18]) \<and>
   m_nDims (qbVector_data [1, 2 :: int]) \<noteq> m_nDims (qbVector_data [1, 2, 3 :: int]) \<and>
   operator_plus (qbVector_data [1, 2 :: int]) (qbVector_data [1, 2, 3]) = Inl DimensionMismatch \<and>
   operator_minus (qbVector_data [1, 2 :: int]) (qbVector_data [1, 2, 3]) = Inl DimensionMismatch"
proof -
  let ?a = "qbVector_data [1, 2 :: int]" and ?b = "qbVector_data [10, 20 :: int]"
  let ?c = "qbVector_data [1, 2, 3 :: int]"
  have a: "invar ?a" and b: "invar ?b" and c: "invar ?c"
    by (simp_all add: invar_def qbVector_data_def int_of_size_def INT_MAX_def)
  have eq: "m_nDims ?a = m_nDims ?b" and ne: "m_nDims ?a \<noteq> m_nDims ?c"
    by (simp_all add: qbVector_data_def int_of_size_def)
  from add_subtract_elementwise [OF a b] eq
  obtain r s where r: "operator_plus ?a ?b = Inr r" and s: "operator_minus ?a ?b = Inr s"
    and dr: "m_nDims r = m_nDims ?a" and lr: "length (m_vectorData r) = length (m_vectorData ?a)"
    and ds: "m_nDims s = m_nDims ?a" and ls: "length (m_vectorData s) = length (m_vectorData ?a)"
    and el: "\<forall>i. 0 \<le> i \<and> i < m_nDims ?a \<longrightarrow>
                 m_vectorData r ! nat i = m_vectorData ?a ! nat i + m_vectorData ?b ! nat i \<and>
                 m_vectorData s ! nat i = m_vectorData ?a ! nat i - m_vectorData ?b ! nat i"
    by blast
  have "m_vectorData r = [11, 22]"
    using lr el [rule_format, of 0] el [rule_format, of 1]
    by (auto simp: qbVector_data_def int_of_size_def length_Suc_conv)
  then have "r = qbVector_data [11, 22]"
    using dr by (simp add: qbVector_data_def int_of_size_def)
  moreover have "m_vectorData s = [- 9, - 18]"
    using ls el [rule_format, of 0] el [rule_format, of 1]
    by (auto simp: qbVector_data_def int_of_size_def length_Suc_conv)
  then have "s = qbVector_data [- 9, - 18]"
    using ds by (simp add: qbVector_data_def int_of_size_def)
  ultimately show ?thesis
    using a b c eq ne r s add_subtract_elementwise [OF a c] by simp
qed

subsection \<open>The order of the checks of the cross product\<close>

text \<open>
  C4. \<^verbatim>\<open>cross\<close> checks its preconditions in this order: operands of different dimension
  fail with \<open>DimensionMismatch\<close>; operands of equal dimension other than 3 fail with
  \<open>InvalidDimension\<close>. Two vectors of dimension 4 fail with \<open>InvalidDimension\<close>.
\<close>

theorem cross_precondition_order:
  "(m_nDims a \<noteq> m_nDims b \<longrightarrow> cross a b = Inl DimensionMismatch) \<and>
   (m_nDims a = m_nDims b \<and> m_nDims a \<noteq> 3 \<longrightarrow> cross a b = Inl InvalidDimension)"
  by (simp add: cross_def)

theorem cross_precondition_order_witness:
  "m_nDims (qbVector_data [1, 2, 3 :: int]) \<noteq> m_nDims (qbVector_data [1, 2, 3, 4 :: int]) \<and>
   cross (qbVector_data [1, 2, 3 :: int]) (qbVector_data [1, 2, 3, 4]) = Inl DimensionMismatch \<and>
   m_nDims (qbVector_data [1, 2, 3, 4 :: int]) = m_nDims (qbVector_data [5, 6, 7, 8 :: int]) \<and>
   m_nDims (qbVector_data [1, 2, 3, 4 :: int]) \<noteq> 3 \<and>
   cross (qbVector_data [1, 2, 3, 4 :: int]) (qbVector_data [5, 6, 7, 8]) = Inl InvalidDimension"
proof -
  have ne: "m_nDims (qbVector_data [1, 2, 3 :: int]) \<noteq> m_nDims (qbVector_data [1, 2, 3, 4 :: int])"
    and eq: "m_nDims (qbVector_data [1, 2, 3, 4 :: int]) = m_nDims (qbVector_data [5, 6, 7, 8 :: int])"
    and four: "m_nDims (qbVector_data [1, 2, 3, 4 :: int]) \<noteq> 3"
    by (simp_all add: qbVector_data_def int_of_size_def)
  show ?thesis
    using ne eq four
      cross_precondition_order [of "qbVector_data [1, 2, 3 :: int]" "qbVector_data [1, 2, 3, 4]"]
      cross_precondition_order [of "qbVector_data [1, 2, 3, 4 :: int]" "qbVector_data [5, 6, 7, 8]"]
    by blast
qed

subsection \<open>The dot product of empty vectors\<close>

text \<open>
  C10. For vectors \<open>a\<close> and \<open>b\<close> of dimension 0, \<^verbatim>\<open>dot\<close> succeeds and returns \<open>0\<close>, the
  empty sum.
\<close>

theorem dot_dimension_zero:
  "m_nDims a = 0 \<Longrightarrow> m_nDims b = 0 \<Longrightarrow> dot a b = Inr 0"
  by (simp add: dot_def for_loop_done)

theorem dot_dimension_zero_witness:
  "m_nDims (qbVector_default :: int qbVector) = 0 \<and>
   dot qbVector_default (qbVector_default :: int qbVector) = Inr 0"
proof -
  have z: "m_nDims (qbVector_default :: int qbVector) = 0"
    by (simp add: qbVector_default_def)
  show ?thesis
    using z dot_dimension_zero [OF z z] by simp
qed

subsection \<open>The checked indexing operators\<close>

text \<open>
  C9. In both \<^verbatim>\<open>operator[]\<close> the index is unsigned, so the test \<^verbatim>\<open>idx < 0\<close> is never true,
  and the operator fails with \<open>IndexOutOfRange\<close> exactly when the test
  \<^verbatim>\<open>idx >= m_nDims\<close> is true.
\<close>

theorem index_negative_branch_unreachable:
  "\<not> idx < (0 :: size_t) \<and>
   (operator_index v idx = Inl IndexOutOfRange \<longleftrightarrow> idx \<ge> word_of_int (m_nDims v)) \<and>
   (operator_index_const v idx = Inl IndexOutOfRange \<longleftrightarrow> idx \<ge> word_of_int (m_nDims v))"
  by (simp add: operator_index_def operator_index_const_def vector_index_def)

theorem index_negative_branch_unreachable_witness:
  "operator_index (qbVector_data [1, 2, 3 :: int]) 5 = Inl IndexOutOfRange \<and>
   operator_index_const (qbVector_data [1, 2, 3 :: int]) 5 = Inl IndexOutOfRange \<and>
   operator_index_const (qbVector_data [1, 2, 3 :: int]) 2 = Inr 3"
proof -
  have "(5 :: size_t) \<ge> word_of_int (m_nDims (qbVector_data [1, 2, 3 :: int]))"
    by (simp add: qbVector_data_def int_of_size_def)
  moreover have "operator_index_const (qbVector_data [1, 2, 3 :: int]) 2 = Inr 3"
    by (simp add: operator_index_const_def qbVector_data_def int_of_size_def vector_index_def)
  ultimately show ?thesis
    using index_negative_branch_unreachable [of 5 "qbVector_data [1, 2, 3 :: int]"] by simp
qed

subsection \<open>The cross product\<close>

lemma cross_component_invar:
  assumes "invar a" and "invar b" and "m_nDims a = 3" and "m_nDims b = 3"
    and "0 \<le> i" "i < 3" "0 \<le> j" "j < 3" "0 \<le> k" "k < 3" "0 \<le> l" "l < 3"
  shows "cross_component a b i j k l =
           Inr (m_vectorData a ! nat i * m_vectorData b ! nat j -
                m_vectorData a ! nat k * m_vectorData b ! nat l)"
  using assms by (simp add: cross_component_def invar_at)

text \<open>
  C2. For vectors \<open>a\<close> and \<open>b\<close> of dimension 3, \<^verbatim>\<open>cross\<close> returns a vector of three elements:
  \<open>a[1] * b[2] - a[2] * b[1]\<close>, \<open>- (a[0] * b[2] - a[2] * b[0])\<close> and
  \<open>a[0] * b[1] - a[1] * b[0]\<close>.
\<close>

theorem cross_formula:
  fixes a b :: "('a::{times,minus,uminus}) qbVector"
  assumes "invar a" and "invar b" and "m_nDims a = 3" and "m_nDims b = 3"
  shows "\<exists>r. cross a b = Inr r \<and> m_nDims r = 3 \<and> length (m_vectorData r) = 3 \<and>
           m_vectorData r ! 0 =
             m_vectorData a ! 1 * m_vectorData b ! 2 - m_vectorData a ! 2 * m_vectorData b ! 1 \<and>
           m_vectorData r ! 1 =
             - (m_vectorData a ! 0 * m_vectorData b ! 2 - m_vectorData a ! 2 * m_vectorData b ! 0) \<and>
           m_vectorData r ! 2 =
             m_vectorData a ! 0 * m_vectorData b ! 1 - m_vectorData a ! 1 * m_vectorData b ! 0"
  using assms
  by (simp add: cross_def cross_component_invar qbVector_data_def int_of_size_def)

theorem cross_formula_witness:
  "invar (qbVector_data [1, 0, 0 :: int]) \<and> invar (qbVector_data [0, 1, 0 :: int]) \<and>
   m_nDims (qbVector_data [1, 0, 0 :: int]) = 3 \<and> m_nDims (qbVector_data [0, 1, 0 :: int]) = 3 \<and>
   cross (qbVector_data [1, 0, 0 :: int]) (qbVector_data [0, 1, 0]) = Inr (qbVector_data [0, 0, 1])"
proof -
  let ?a = "qbVector_data [1, 0, 0 :: int]" and ?b = "qbVector_data [0, 1, 0 :: int]"
  have a: "invar ?a" and b: "invar ?b"
    by (simp_all add: invar_def qbVector_data_def int_of_size_def INT_MAX_def)
  have da: "m_nDims ?a = 3" and db: "m_nDims ?b = 3"
    by (simp_all add: qbVector_data_def int_of_size_def)
  from cross_formula [OF a b da db]
  obtain r where r: "cross ?a ?b = Inr r" and d: "m_nDims r = 3"
    and len: "length (m_vectorData r) = 3"
    and el: "m_vectorData r ! 0 = 0" "m_vectorData r ! 1 = 0" "m_vectorData r ! 2 = 1"
    by (auto simp: qbVector_data_def)
  from len el have "m_vectorData r = [0, 0, 1]"
    by (auto simp: length_Suc_conv numeral_3_eq_3)
  with d have "r = qbVector_data [0, 0, 1]"
    by (simp add: qbVector_data_def int_of_size_def)
  with a b da db r show ?thesis by simp
qed

subsection \<open>Scalar multiplication\<close>

text \<open>
  C6. For every vector \<open>v\<close> and scalar \<open>s\<close>, \<open>s * v\<close> and \<open>v * s\<close> succeed and return the same
  vector, of the dimension of \<open>v\<close>, whose element \<open>i\<close> is \<open>v[i] * s\<close>. The left operator
  computes \<open>s * v[i]\<close> and the right one \<open>v[i] * s\<close>: the one law used of the \<open>*\<close> of \<open>T\<close> is
  that \<open>s\<close> commutes, \<open>s * x = x * s\<close>, as it does for the integer and the IEEE
  floating-point types. Nothing else is assumed of \<open>T\<close>, associativity included.
\<close>

theorem scalar_multiplication_commutes:
  fixes v :: "('a::times) qbVector"
  assumes "invar v" and "\<And>x. s * x = x * s"
  shows "\<exists>r. friend_operator_times s v = Inr r \<and> operator_times_scalar v s = Inr r \<and>
           m_nDims r = m_nDims v \<and> length (m_vectorData r) = length (m_vectorData v) \<and>
           (\<forall>i. 0 \<le> i \<and> i < m_nDims v \<longrightarrow> m_vectorData r ! nat i = m_vectorData v ! nat i * s)"
proof -
  let ?r = "qbVector_data (map (\<lambda>x. x * s) (m_vectorData v))"
  have bound: "int (length (m_vectorData v)) \<le> INT_MAX"
    and dims: "int (length (m_vectorData v)) = m_nDims v"
    using assms(1) by (simp_all add: invar_def)
  have "(\<lambda>x. s * x) = (\<lambda>x. x * s)"
    by (rule ext) (rule assms(2))
  then have "friend_operator_times s v = Inr ?r"
    using friend_operator_times_invar [OF assms(1), of s] by simp
  moreover have "operator_times_scalar v s = Inr ?r"
    using assms(1) by (rule operator_times_scalar_invar)
  moreover have "m_nDims ?r = m_nDims v"
    using bound dims by (simp add: qbVector_data_invar_fields)
  moreover have "length (m_vectorData ?r) = length (m_vectorData v)"
    by (simp add: qbVector_data_invar_fields)
  moreover have "\<forall>i. 0 \<le> i \<and> i < m_nDims v \<longrightarrow> m_vectorData ?r ! nat i = m_vectorData v ! nat i * s"
    using dims by (auto simp: qbVector_data_invar_fields nat_less_iff)
  ultimately show ?thesis by blast
qed

theorem scalar_multiplication_commutes_witness:
  "invar (qbVector_data [1, 2, 3 :: int]) \<and> (\<forall>x :: int. 5 * x = x * 5) \<and>
   friend_operator_times 5 (qbVector_data [1, 2, 3 :: int]) = Inr (qbVector_data [5, 10, 15]) \<and>
   operator_times_scalar (qbVector_data [1, 2, 3 :: int]) 5 = Inr (qbVector_data [5, 10, 15])"
proof -
  let ?v = "qbVector_data [1, 2, 3 :: int]"
  have v: "invar ?v"
    by (simp add: invar_def qbVector_data_def int_of_size_def INT_MAX_def)
  have c: "5 * x = x * 5" for x :: int
    by simp
  from scalar_multiplication_commutes [OF v c]
  obtain r where l: "friend_operator_times 5 ?v = Inr r" and r: "operator_times_scalar ?v 5 = Inr r"
    and d: "m_nDims r = m_nDims ?v" and len: "length (m_vectorData r) = length (m_vectorData ?v)"
    and el: "\<forall>i. 0 \<le> i \<and> i < m_nDims ?v \<longrightarrow> m_vectorData r ! nat i = m_vectorData ?v ! nat i * 5"
    by blast
  have "m_vectorData r = [5, 10, 15]"
    using len el [rule_format, of 0] el [rule_format, of 1] el [rule_format, of 2]
    by (auto simp: qbVector_data_def int_of_size_def length_Suc_conv)
  with d have "r = qbVector_data [5, 10, 15]"
    by (simp add: qbVector_data_def int_of_size_def)
  with v c l r show ?thesis by simp
qed

subsection \<open>Subtraction as addition of the negated vector\<close>

text \<open>
  C7. For vectors \<open>a\<close> and \<open>b\<close> of equal dimension, \<open>a - b\<close> is \<open>a + b * (- 1)\<close>: scaling
  \<open>b\<close> by \<open>- 1\<close> succeeds, and adding the result to \<open>a\<close> gives the vector that the
  subtraction gives. The one law used of the operators of \<open>T\<close> is
  \<open>x - y = x + y * (- 1)\<close>, as it holds for the integer and the IEEE floating-point
  types. Nothing else is assumed of \<open>T\<close>, associativity and distributivity included.
\<close>

theorem subtract_is_add_scaled:
  fixes a b :: "('a::{one,plus,minus,uminus,times}) qbVector"
  assumes "invar a" and "invar b" and "m_nDims a = m_nDims b"
    and "\<And>x y :: 'a. x - y = x + y * (- 1)"
  shows "\<exists>nb r. operator_times_scalar b (- 1) = Inr nb \<and>
           operator_plus a nb = Inr r \<and> operator_minus a b = Inr r"
proof -
  let ?xs = "m_vectorData a" and ?ys = "m_vectorData b"
  let ?nb = "qbVector_data (map (\<lambda>y. y * - 1) ?ys)"
  have bound: "int (length ?ys) \<le> INT_MAX" and dims: "int (length ?ys) = m_nDims b"
    using assms(2) by (simp_all add: invar_def)
  have nb: "operator_times_scalar b (- 1) = Inr ?nb"
    using assms(2) by (rule operator_times_scalar_invar)
  have inv_nb: "invar ?nb"
    using bound by (simp add: invar_qbVector_data)
  have dim_nb: "m_nDims a = m_nDims ?nb"
    using bound dims assms(3) by (simp add: qbVector_data_invar_fields)
  have "map2 (+) ?xs (map (\<lambda>y. y * - 1) ?ys) = map2 (-) ?xs ?ys"
    by (simp add: zip_map2 split_def assms(4))
  then have "operator_plus a ?nb = Inr (qbVector_data (map2 (-) ?xs ?ys))"
    using operator_plus_invar [OF assms(1) inv_nb dim_nb]
    by (simp add: qbVector_data_invar_fields)
  moreover have "operator_minus a b = Inr (qbVector_data (map2 (-) ?xs ?ys))"
    using assms(1-3) by (rule operator_minus_invar)
  ultimately show ?thesis
    using nb by blast
qed

theorem subtract_is_add_scaled_witness:
  "invar (qbVector_data [5, 7 :: int]) \<and> invar (qbVector_data [1, 10 :: int]) \<and>
   m_nDims (qbVector_data [5, 7 :: int]) = m_nDims (qbVector_data [1, 10 :: int]) \<and>
   (\<forall>x y :: int. x - y = x + y * (- 1)) \<and>
   operator_times_scalar (qbVector_data [1, 10 :: int]) (- 1) = Inr (qbVector_data [- 1, - 10]) \<and>
   operator_plus (qbVector_data [5, 7 :: int]) (qbVector_data [- 1, - 10]) = Inr (qbVector_data [4, - 3]) \<and>
   operator_minus (qbVector_data [5, 7 :: int]) (qbVector_data [1, 10]) = Inr (qbVector_data [4, - 3])"
proof -
  let ?a = "qbVector_data [5, 7 :: int]" and ?b = "qbVector_data [1, 10 :: int]"
  have a: "invar ?a" and b: "invar ?b"
    by (simp_all add: invar_def qbVector_data_def int_of_size_def INT_MAX_def)
  have eq: "m_nDims ?a = m_nDims ?b"
    by (simp add: qbVector_data_def int_of_size_def)
  have nb: "operator_times_scalar ?b (- 1) = Inr (qbVector_data [- 1, - 10])"
    using operator_times_scalar_invar [OF b, of "- 1"] by (simp add: qbVector_data_def)
  have m: "operator_minus ?a ?b = Inr (qbVector_data [4, - 3])"
    using operator_minus_invar [OF a b eq] by (simp add: qbVector_data_def)
  have law: "x - y = x + y * (- 1)" for x y :: int
    by simp
  show ?thesis
    using a b eq law nb m subtract_is_add_scaled [OF a b eq law] by auto
qed

subsection \<open>Norm and normalisation\<close>

lemma for_loop_accumulate:
  assumes "\<And>k s. i \<le> k \<Longrightarrow> k < n \<Longrightarrow> body k s = Inr (g s k)"
  shows "for_loop i n body s = Inr (foldl g s (map (\<lambda>j. i + int j) [0..<nat (n - i)]))"
  using assms
proof (induction "nat (n - i)" arbitrary: i s)
  case 0
  then show ?case by (simp add: for_loop_done)
next
  case (Suc m)
  then have lt: "i < n" and m: "m = nat (n - (i + 1))" by linarith+
  have step: "for_loop i n body s = for_loop (i + 1) n body (g s i)"
    using lt Suc.prems by (simp add: for_loop_step)
  have "for_loop (i + 1) n body (g s i) =
          Inr (foldl g (g s i) (map (\<lambda>j. i + 1 + int j) [0..<nat (n - (i + 1))]))"
    using m Suc.prems by (intro Suc.hyps) simp_all
  moreover have "nat (n - i) = Suc (nat (n - (i + 1)))"
    using lt by linarith
  ultimately show ?case
    using step by (simp add: map_upt_Suc add.commute add.left_commute del: upt_Suc)
qed

lemma foldl_index_conv: "foldl (\<lambda>s j. g s (xs ! j)) s [0..<length xs] = foldl g s xs"
proof -
  have "foldl g s (map (\<lambda>j. xs ! j) [0..<length xs]) = foldl (\<lambda>s j. g s (xs ! j)) s [0..<length xs]"
    by (simp add: foldl_map)
  then show ?thesis
    by (simp add: map_nth)
qed

lemma norm_qb_invar:
  assumes "invar v"
  shows "norm_qb sqrtT v = Inr (sqrtT (foldl (\<lambda>s x. s + x * x) 0 (m_vectorData v)))"
proof -
  let ?xs = "m_vectorData v"
  have "for_loop 0 (m_nDims v)
          (\<lambda>i cumulativeSum. case vector_at ?xs i of Inl e \<Rightarrow> Inl e
             | Inr x \<Rightarrow> Inr (cumulativeSum + x * x)) 0 =
        Inr (foldl (\<lambda>s k. s + ?xs ! nat k * ?xs ! nat k) 0
              (map (\<lambda>j. 0 + int j) [0..<nat (m_nDims v - 0)]))"
    by (rule for_loop_accumulate) (simp add: invar_at [OF assms])
  then show ?thesis
    using invar_lengthD [OF assms, symmetric]
      foldl_index_conv [of "\<lambda>s x. s + x * x" ?xs 0]
    by (simp add: norm_qb_def foldl_map)
qed

lemma for_loop_in_place:
  assumes "int (length xs) = n" and "n \<le> INT_MAX" and "0 \<le> i"
  shows "for_loop i n
           (\<lambda>i d. case vector_at d i of Inl e \<Rightarrow> Inl e | Inr x \<Rightarrow> vector_at_assign d i (f x)) xs =
         Inr (take (nat i) xs @ map f (drop (nat i) xs))"
  using assms
proof (induction "nat (n - i)" arbitrary: i xs)
  case 0
  then have "n \<le> i" and "length xs \<le> nat i" by linarith+
  then show ?case by (simp add: for_loop_done)
next
  case (Suc m)
  let ?body = "\<lambda>i d. case vector_at d i of Inl e \<Rightarrow> Inl e | Inr x \<Rightarrow> vector_at_assign d i (f x)"
  let ?k = "nat i"
  let ?xs' = "xs[?k := f (xs ! ?k)]"
  from Suc have lt: "i < n" and m: "m = nat (n - (i + 1))" by linarith+
  have k: "?k < length xs"
    using lt Suc.prems by linarith
  have sz: "size_of_int i = ?k"
    using lt Suc.prems by (simp add: size_of_int_nat)
  have body: "?body i xs = Inr ?xs'"
    using k sz by (simp add: vector_at_def vector_at_assign_def Let_def)
  have "for_loop i n ?body xs = for_loop (i + 1) n ?body ?xs'"
    using lt body by (rule for_loop_step)
  also have "\<dots> = Inr (take (nat (i + 1)) ?xs' @ map f (drop (nat (i + 1)) ?xs'))"
    using m Suc.prems by (intro Suc.hyps) simp_all
  also have "nat (i + 1) = Suc ?k"
    using Suc.prems by linarith
  also have "take (Suc ?k) ?xs' = take ?k xs @ [f (xs ! ?k)]"
    using k by (simp add: take_Suc_conv_app_nth)
  also have "drop (Suc ?k) ?xs' = drop (Suc ?k) xs"
    by simp
  also have "(take ?k xs @ [f (xs ! ?k)]) @ map f (drop (Suc ?k) xs) =
             take ?k xs @ map f (drop ?k xs)"
    using k by (simp add: Cons_nth_drop_Suc [symmetric])
  finally show ?case .
qed

lemma Normalize_invar:
  assumes "invar v" and "norm_qb sqrtT v = Inr vecNorm"
  shows "Normalize sqrtT v =
           Inr (v\<lparr>m_vectorData := map (\<lambda>x. x * (1 / vecNorm)) (m_vectorData v)\<rparr>)"
proof -
  have "for_loop 0 (m_nDims v)
          (\<lambda>i d. case vector_at d i of Inl e \<Rightarrow> Inl e
             | Inr x \<Rightarrow> vector_at_assign d i (x * (1 / vecNorm))) (m_vectorData v) =
        Inr (take (nat 0) (m_vectorData v) @
             map (\<lambda>x. x * (1 / vecNorm)) (drop (nat 0) (m_vectorData v)))"
    using assms(1) by (intro for_loop_in_place) (simp_all add: invar_def)
  then show ?thesis
    using assms(2) by (simp add: Normalize_def)
qed

lemma Normalized_invar:
  assumes "invar v" and "norm_qb sqrtT v = Inr vecNorm"
  shows "Normalized sqrtT v =
           Inr (qbVector_data (map (\<lambda>x. x * (1 / vecNorm)) (m_vectorData v)))"
proof -
  have "int (length (m_vectorData v)) \<le> INT_MAX"
    using assms(1) by (simp add: invar_def)
  then have "invar (qbVector_data (m_vectorData v))"
    by (rule invar_qbVector_data)
  then have "operator_times_scalar (qbVector_data (m_vectorData v)) (1 / vecNorm) =
      Inr (qbVector_data (map (\<lambda>x. x * (1 / vecNorm)) (m_vectorData (qbVector_data (m_vectorData v)))))"
    by (rule operator_times_scalar_invar)
  then show ?thesis
    using assms(2) by (simp add: Normalized_def qbVector_data_invar_fields)
qed


text \<open>
  C5. For every vector \<open>v\<close> whose norm is not \<open>0\<close>, the in-place \<^verbatim>\<open>Normalize\<close> leaves \<open>v\<close>
  with the dimension and the elements of the vector that \<^verbatim>\<open>Normalized\<close> returns for \<open>v\<close>:
  both succeed with the same vector, whose elements are \<open>v[i] * (1 / norm)\<close>.
\<close>

theorem Normalize_agrees_with_Normalized:
  fixes v :: "('a::{zero,one,plus,times,inverse}) qbVector"
  assumes "invar v" and "norm_qb sqrtT v \<noteq> Inr 0"
  shows "\<exists>vecNorm r. norm_qb sqrtT v = Inr vecNorm \<and>
           Normalized sqrtT v = Inr r \<and> Normalize sqrtT v = Inr r \<and>
           m_nDims r = m_nDims v \<and>
           m_vectorData r = map (\<lambda>x. x * (1 / vecNorm)) (m_vectorData v)"
proof -
  obtain vecNorm where n: "norm_qb sqrtT v = Inr vecNorm"
    using norm_qb_invar [OF assms(1)] by blast
  let ?xs = "map (\<lambda>x. x * (1 / vecNorm)) (m_vectorData v)"
  have "int (length ?xs) \<le> INT_MAX" and "int (length ?xs) = m_nDims v"
    using assms(1) by (simp_all add: invar_def)
  then have "qbVector_data ?xs = v\<lparr>m_vectorData := ?xs\<rparr>"
    by (simp add: qbVector_data_def int_of_size_nat)
  then have "Normalized sqrtT v = Inr (v\<lparr>m_vectorData := ?xs\<rparr>)"
    using Normalized_invar [OF assms(1) n] by simp
  moreover have "Normalize sqrtT v = Inr (v\<lparr>m_vectorData := ?xs\<rparr>)"
    using assms(1) n by (rule Normalize_invar)
  ultimately show ?thesis
    using n by simp
qed

theorem Normalize_agrees_with_Normalized_witness:
  "invar (qbVector_data [3, 0, 4 :: real]) \<and>
   norm_qb sqrt (qbVector_data [3, 0, 4 :: real]) = Inr 5 \<and>
   norm_qb sqrt (qbVector_data [3, 0, 4 :: real]) \<noteq> Inr 0 \<and>
   Normalized sqrt (qbVector_data [3, 0, 4 :: real]) = Inr (qbVector_data [3 / 5, 0, 4 / 5]) \<and>
   Normalize sqrt (qbVector_data [3, 0, 4 :: real]) = Inr (qbVector_data [3 / 5, 0, 4 / 5])"
proof -
  let ?v = "qbVector_data [3, 0, 4 :: real]"
  have v: "invar ?v"
    by (simp add: invar_def qbVector_data_def int_of_size_def INT_MAX_def)
  have "sqrt 25 = 5"
    by (rule real_sqrt_unique) simp_all
  then have n: "norm_qb sqrt ?v = Inr 5"
    using norm_qb_invar [OF v, of sqrt] by (simp add: qbVector_data_def)
  then have nz: "norm_qb sqrt ?v \<noteq> Inr 0" by simp
  from Normalize_agrees_with_Normalized [OF v nz] n
  obtain r where "Normalized sqrt ?v = Inr r" and "Normalize sqrt ?v = Inr r"
    and "m_nDims r = m_nDims ?v" and "m_vectorData r = map (\<lambda>x. x * (1 / 5)) (m_vectorData ?v)"
    by auto
  moreover from this have "r = qbVector_data [3 / 5, 0, 4 / 5]"
    by (simp add: qbVector_data_def)
  ultimately show ?thesis
    using v n nz by simp
qed

subsection \<open>Element access\<close>

lemma size_of_int_negative:
  assumes "INT_MIN \<le> i" and "i < 0"
  shows "size_of_int i = nat (i + 2 ^ 64)"
proof -
  have "(i + 2 ^ 64) mod 2 ^ 64 = i + 2 ^ 64"
    using assms by (intro mod_pos_pos_trivial) (simp_all add: INT_MIN_def)
  then show ?thesis
    by (simp add: size_of_int_def)
qed

lemma size_of_int_outside:
  assumes v: "invar v" and i: "INT_MIN \<le> i" "i \<le> INT_MAX" and out: "i < 0 \<or> m_nDims v \<le> i"
  shows "\<not> size_of_int i < length (m_vectorData v)"
proof (cases "i < 0")
  case True
  then have "size_of_int i = nat (i + 2 ^ 64)"
    using i by (simp add: size_of_int_negative)
  moreover have "int (length (m_vectorData v)) \<le> 2147483647"
    using v by (simp add: invar_def INT_MAX_def)
  ultimately show ?thesis
    using i by (simp add: INT_MIN_def)
next
  case False
  then have "size_of_int i = nat i" and "m_nDims v \<le> i"
    using i out by (simp_all add: size_of_int_nat)
  then show ?thesis
    using v by (auto simp: invar_def)
qed

lemma unat_word_of_int_size: "unat (word_of_int i :: size_t) = size_of_int i"
  by (simp add: size_of_int_def unsigned_of_int take_bit_eq_mod)

lemma GetElement_in_range:
  assumes "invar v" and "0 \<le> i" and "i < m_nDims v"
  shows "GetElement v i = Inr (m_vectorData v ! nat i)"
    and "SetElement v i x = Inr (v\<lparr>m_vectorData := (m_vectorData v)[nat i := x]\<rparr>)"
  using assms
  by (auto simp: GetElement_def SetElement_def vector_index_def vector_index_assign_def
      invar_def size_of_int_nat)

text \<open>
  C3, as the code has it. \<^verbatim>\<open>GetElement\<close> and \<^verbatim>\<open>SetElement\<close> check nothing: for an \<^verbatim>\<open>int\<close>
  index \<open>i\<close> with \<open>i < 0\<close> or \<open>i \<ge> dimension\<close> the access falls outside the storage, which
  is undefined behaviour and not an \<open>IndexOutOfRange\<close> failure. The failure
  \<open>IndexOutOfRange\<close> is that of the two \<^verbatim>\<open>operator[]\<close>, which raise it for the same index.
\<close>

theorem element_access_unchecked:
  assumes "invar v" and "INT_MIN \<le> i" and "i \<le> INT_MAX" and "i < 0 \<or> m_nDims v \<le> i"
  shows "GetElement v i = Inl UndefinedBehaviour \<and>
         SetElement v i x = Inl UndefinedBehaviour \<and>
         operator_index v (word_of_int i) = Inl IndexOutOfRange \<and>
         operator_index_const v (word_of_int i) = Inl IndexOutOfRange"
proof -
  have out: "\<not> size_of_int i < length (m_vectorData v)"
    using assms by (rule size_of_int_outside)
  have "size_of_int (m_nDims v) = length (m_vectorData v)"
    using assms(1) by (auto simp: invar_def size_of_int_nat)
  then have "(word_of_int (m_nDims v) :: size_t) \<le> word_of_int i"
    using out by (simp add: word_le_nat_alt unat_word_of_int_size)
  then show ?thesis
    using out
    by (simp add: GetElement_def SetElement_def vector_index_def vector_index_assign_def
        operator_index_def operator_index_const_def)
qed

theorem element_access_unchecked_witness:
  "invar (qbVector_data [1, 2, 3 :: int]) \<and> INT_MIN \<le> 5 \<and> 5 \<le> INT_MAX \<and>
   m_nDims (qbVector_data [1, 2, 3 :: int]) \<le> 5 \<and>
   GetElement (qbVector_data [1, 2, 3 :: int]) 5 = Inl UndefinedBehaviour \<and>
   SetElement (qbVector_data [1, 2, 3 :: int]) 5 0 = Inl UndefinedBehaviour \<and>
   operator_index (qbVector_data [1, 2, 3 :: int]) 5 = Inl IndexOutOfRange \<and>
   operator_index_const (qbVector_data [1, 2, 3 :: int]) 5 = Inl IndexOutOfRange"
proof -
  let ?v = "qbVector_data [1, 2, 3 :: int]"
  have v: "invar ?v"
    by (simp add: invar_def qbVector_data_def int_of_size_def INT_MAX_def)
  have lo: "INT_MIN \<le> 5" and hi: "5 \<le> INT_MAX"
    by (simp_all add: INT_MIN_def INT_MAX_def)
  have d: "m_nDims ?v \<le> 5"
    by (simp add: qbVector_data_def int_of_size_def)
  then have out: "5 < 0 \<or> m_nDims ?v \<le> 5" by simp
  show ?thesis
    using v lo hi d element_access_unchecked [OF v lo hi out, of 0] by simp
qed

text \<open>
  The accessors on a vector of dimension 3 at index 5: neither fails with
  \<open>IndexOutOfRange\<close>.
\<close>

theorem GetElement_out_of_range_counterexample:
  "m_nDims (qbVector_data [1, 2, 3 :: int]) = 3 \<and>
   GetElement (qbVector_data [1, 2, 3 :: int]) 5 \<noteq> Inl IndexOutOfRange \<and>
   SetElement (qbVector_data [1, 2, 3 :: int]) 5 0 \<noteq> Inl IndexOutOfRange"
  by (simp add: GetElement_def SetElement_def vector_index_def vector_index_assign_def
      qbVector_data_def int_of_size_def size_of_int_def)

subsection \<open>The invariant through the public interface\<close>

lemma invar_qbVector_default: "invar qbVector_default"
  by (simp add: invar_def qbVector_default_def INT_MAX_def)

lemma invar_qbVector_dims:
  assumes "INT_MIN \<le> numDims" and "numDims \<le> INT_MAX"
  shows "qbVector_dims numDims =
           (if numDims < 0 then Inl StdLengthError
            else Inr \<lparr>m_vectorData = replicate (nat numDims) 0, m_nDims = numDims\<rparr>)"
    and "qbVector_dims numDims = Inr v \<Longrightarrow> invar v"
proof -
  show eq: "qbVector_dims numDims =
           (if numDims < 0 then Inl StdLengthError
            else Inr \<lparr>m_vectorData = replicate (nat numDims) 0, m_nDims = numDims\<rparr>)"
  proof (cases "numDims < 0")
    case True
    then have "size_of_int numDims = nat (numDims + 2 ^ 64)"
      using assms by (simp add: size_of_int_negative)
    then have "max_size < size_of_int numDims"
      using assms by (simp add: max_size_def INT_MIN_def)
    then show ?thesis
      using True by (simp add: qbVector_dims_def)
  next
    case False
    then have "size_of_int numDims = nat numDims"
      using assms by (simp add: size_of_int_nat)
    moreover have "\<not> max_size < nat numDims"
      using assms by (simp add: max_size_def INT_MAX_def)
    ultimately show ?thesis
      using False by (simp add: qbVector_dims_def)
  qed
  show "invar v" if "qbVector_dims numDims = Inr v"
    using that assms unfolding eq by (auto simp: invar_def split: if_splits)
qed

lemma for_loop_invariant:
  assumes "for_loop i n body s = Inr t" and "P s"
    and "\<And>k s s'. i \<le> k \<Longrightarrow> k < n \<Longrightarrow> P s \<Longrightarrow> body k s = Inr s' \<Longrightarrow> P s'"
  shows "P t"
  using assms
proof (induction "nat (n - i)" arbitrary: i s)
  case 0
  then show ?case by (simp add: for_loop_done)
next
  case (Suc m)
  then have lt: "i < n" and m: "m = nat (n - (i + 1))" by linarith+
  show ?case
  proof (cases "body i s")
    case (Inl e)
    then show ?thesis
      using lt Suc.prems(1) by (simp add: for_loop.simps [of i])
  next
    case (Inr s')
    then have "for_loop (i + 1) n body s' = Inr t"
      using lt Suc.prems(1) by (simp add: for_loop_step)
    moreover have "P s'"
      using order_refl lt Suc.prems(2) Inr by (rule Suc.prems(3))
    moreover have "P u'" if "i + 1 \<le> k" "k < n" "P u" "body k u = Inr u'" for k u u'
    proof -
      from that(1) have "i \<le> k" by simp
      then show ?thesis using that(2-4) by (rule Suc.prems(3))
    qed
    ultimately show ?thesis
      using m by (intro Suc.hyps(1) [of "i + 1" s'])
  qed
qed

lemma Normalize_keeps_dimension:
  assumes "Normalize sqrtT v = Inr r"
  shows "m_nDims r = m_nDims v" and "length (m_vectorData r) = length (m_vectorData v)"
    and "invar v \<Longrightarrow> invar r"
proof -
  from assms obtain vecNorm d where
    loop: "for_loop 0 (m_nDims v)
             (\<lambda>i d. case vector_at d i of Inl e \<Rightarrow> Inl e
                | Inr x \<Rightarrow> vector_at_assign d i (x * (1 / vecNorm))) (m_vectorData v) = Inr d"
    and r: "r = v\<lparr>m_vectorData := d\<rparr>"
    by (auto simp: Normalize_def split: sum.splits)
  have "length d = length (m_vectorData v)"
    by (rule for_loop_invariant [OF loop])
      (auto simp: vector_at_assign_def Let_def split: sum.splits if_splits)
  with r show "m_nDims r = m_nDims v" and len: "length (m_vectorData r) = length (m_vectorData v)"
    by simp_all
  show "invar r" if "invar v"
    using that r len by (simp add: invar_def)
qed

lemma operator_times_vector_invar:
  assumes "invar v" and "operator_times_vector v rhs = Inr r"
  shows "invar r" and "m_nDims r = m_nDims v"
proof -
  let ?n = "size_of_int (m_nDims v)"
  from assms(2) obtain d where
    loop: "for_loop 0 (m_nDims v)
             (\<lambda>i resultData. case vector_at (m_vectorData v) i of Inl e \<Rightarrow> Inl e
                | Inr x \<Rightarrow> (case vector_at (m_vectorData rhs) i of Inl e \<Rightarrow> Inl e
                    | Inr y \<Rightarrow> vector_index_assign resultData (size_of_int i) (x * y)))
             (replicate ?n 0) = Inr d"
    and r: "r = qbVector_data d"
    by (auto simp: operator_times_vector_def split: sum.splits if_splits)
  have "length d = ?n"
    by (rule for_loop_invariant [OF loop])
      (auto simp: vector_index_assign_def split: sum.splits if_splits)
  moreover have "?n = nat (m_nDims v)" and "m_nDims v \<le> INT_MAX" and "0 \<le> m_nDims v"
    using assms(1) by (auto simp: invar_def size_of_int_nat)
  ultimately have "int (length d) \<le> INT_MAX" and "int (length d) = m_nDims v"
    by simp_all
  with r show "invar r" and "m_nDims r = m_nDims v"
    by (simp_all add: invar_qbVector_data qbVector_data_invar_fields)
qed

lemma arithmetic_results_invar:
  fixes v rhs :: "('a::{plus,minus,times}) qbVector"
  assumes "invar v" and "invar rhs"
  shows "operator_plus v rhs = Inr r \<Longrightarrow> invar r \<and> m_nDims r = m_nDims v"
    and "operator_minus v rhs = Inr r \<Longrightarrow> invar r \<and> m_nDims r = m_nDims v"
    and "operator_times_scalar v x = Inr r \<Longrightarrow> invar r \<and> m_nDims r = m_nDims v"
    and "friend_operator_times x v = Inr r \<Longrightarrow> invar r \<and> m_nDims r = m_nDims v"
proof -
  have bound: "int (length (m_vectorData v)) \<le> INT_MAX"
    and dims: "int (length (m_vectorData v)) = m_nDims v"
    using assms(1) by (simp_all add: invar_def)
  have len: "length (m_vectorData rhs) = length (m_vectorData v)" if "m_nDims v = m_nDims rhs"
    using that assms by (simp add: invar_lengthD)
  show "invar r \<and> m_nDims r = m_nDims v" if "operator_plus v rhs = Inr r"
  proof (cases "m_nDims v = m_nDims rhs")
    case True
    then show ?thesis
      using that operator_plus_invar [OF assms True] bound dims len
      by (auto simp: invar_qbVector_data qbVector_data_invar_fields)
  next
    case False
    then show ?thesis
      using that by (simp add: operator_plus_def)
  qed
  show "invar r \<and> m_nDims r = m_nDims v" if "operator_minus v rhs = Inr r"
  proof (cases "m_nDims v = m_nDims rhs")
    case True
    then show ?thesis
      using that operator_minus_invar [OF assms True] bound dims len
      by (auto simp: invar_qbVector_data qbVector_data_invar_fields)
  next
    case False
    then show ?thesis
      using that by (simp add: operator_minus_def)
  qed
  show "invar r \<and> m_nDims r = m_nDims v" if "operator_times_scalar v x = Inr r"
    using that operator_times_scalar_invar [OF assms(1), of x] bound dims
    by (auto simp: invar_qbVector_data qbVector_data_invar_fields)
  show "invar r \<and> m_nDims r = m_nDims v" if "friend_operator_times x v = Inr r"
    using that friend_operator_times_invar [OF assms(1), of x] bound dims
    by (auto simp: invar_qbVector_data qbVector_data_invar_fields)
qed

text \<open>
  C8 asks that every vector built through the public interface has a storage of
  \<open>m_nDims\<close> elements. The lemmas above give this for the default constructor, for
  \<^verbatim>\<open>qbVector(int)\<close>, for the results of the operators and for \<^verbatim>\<open>Normalize\<close>, and for
  \<^verbatim>\<open>qbVector(std::vector<T>)\<close> up to \<open>INT_MAX\<close> elements. Beyond that the constructor's
  \<^verbatim>\<open>m_nDims = inputData.size()\<close> narrows: a vector of \<open>2 ^ 31\<close> elements gets the dimension
  \<open>- 2 ^ 31\<close>.
\<close>

theorem qbVector_data_narrows_dimension:
  "length (m_vectorData (qbVector_data (replicate 2147483648 (0 :: real)))) = 2147483648 \<and>
   m_nDims (qbVector_data (replicate 2147483648 (0 :: real))) = - 2147483648 \<and>
   GetNumDims (qbVector_data (replicate 2147483648 (0 :: real))) = - 2147483648 \<and>
   \<not> invar (qbVector_data (replicate 2147483648 (0 :: real)))"
  by (simp add: qbVector_data_def int_of_size_def invar_def GetNumDims_def)

end
